theory Spec2Isabelle
  imports Main "HOL-Library.Sublist" "HOL-Library.Multiset"
begin

section \<open>Python primitives used by the library code\<close>

text \<open>
  The exceptions that the dictionary, list and date primitives of the source can raise.
  Every operation that can raise returns its outcome as a sum, \<open>Inl\<close> the exception,
  paired with the state the objects are left in: a Python exception does not roll
  back the assignments made before it.
\<close>

datatype error = KeyError | ValueError | OverflowError

type_synonym 'a outcome = "error + 'a"

text \<open>
  A Python \<open>dict\<close> keeps its keys in insertion order, so it is an association list:
  a new key goes to the end, an existing key keeps its place, and a lookup takes the
  first pair with the key.
\<close>

type_synonym ('k, 'v) pydict = "('k \<times> 'v) list"

definition dict_contains :: "('k, 'v) pydict \<Rightarrow> 'k \<Rightarrow> bool" where
  \<comment> \<open>\<open>k in d\<close>\<close>
  "dict_contains d k = (k \<in> set (map fst d))"

definition dict_get :: "('k, 'v) pydict \<Rightarrow> 'k \<Rightarrow> 'v option" where
  \<comment> \<open>\<open>d.get(k)\<close>\<close>
  "dict_get d k = map_of d k"

definition dict_getitem :: "('k, 'v) pydict \<Rightarrow> 'k \<Rightarrow> 'v outcome" where
  \<comment> \<open>\<open>d[k]\<close>\<close>
  "dict_getitem d k = (case map_of d k of None \<Rightarrow> Inl KeyError | Some v \<Rightarrow> Inr v)"

fun dict_setitem :: "('k, 'v) pydict \<Rightarrow> 'k \<Rightarrow> 'v \<Rightarrow> ('k, 'v) pydict" where
  \<comment> \<open>\<open>d[k] = v\<close>\<close>
  "dict_setitem [] k v = [(k, v)]"
| "dict_setitem (p # d) k v = (if fst p = k then (k, v) # d else p # dict_setitem d k v)"

definition dict_delitem :: "('k, 'v) pydict \<Rightarrow> 'k \<Rightarrow> ('k, 'v) pydict outcome" where
  \<comment> \<open>\<open>del d[k]\<close>\<close>
  "dict_delitem d k =
     (if dict_contains d k then Inr (filter (\<lambda>p. fst p \<noteq> k) d) else Inl KeyError)"

definition dict_values :: "('k, 'v) pydict \<Rightarrow> 'v list" where
  \<comment> \<open>\<open>d.values()\<close>\<close>
  "dict_values d = map snd d"

definition dict_items :: "('k, 'v) pydict \<Rightarrow> ('k \<times> 'v) list" where
  \<comment> \<open>\<open>d.items()\<close>\<close>
  "dict_items d = d"

definition list_remove :: "'a list \<Rightarrow> 'a \<Rightarrow> 'a list outcome" where
  \<comment> \<open>\<open>xs.remove(x)\<close>: drops the first occurrence, raises when there is none\<close>
  "list_remove xs x = (if x \<in> set xs then Inr (remove1 x xs) else Inl ValueError)"

text \<open>
  A character is a code point below 256, so a string is a \<open>str\<close> of Latin-1 code
  points. On these \<open>str.lower()\<close> folds the code points 65 to 90 (A to Z), 192 to 214
  and 216 to 222 (the accented capitals), each onto the code point 32 above it, and keeps
  every other code point; the result has the length of the argument.
\<close>

definition char_lower :: "char \<Rightarrow> char" where
  "char_lower c =
     (let n = (of_char c :: nat)
      in if (65 \<le> n \<and> n \<le> 90) \<or> (192 \<le> n \<and> n \<le> 214) \<or> (216 \<le> n \<and> n \<le> 222)
         then char_of (n + 32) else c)"

definition lower :: "string \<Rightarrow> string" where
  "lower s = map char_lower s"

definition str_in :: "string \<Rightarrow> string \<Rightarrow> bool" where
  \<comment> \<open>\<open>q in s\<close> on strings: \<open>q\<close> occurs in \<open>s\<close> as a contiguous run\<close>
  "str_in q s = sublist q s"

text \<open>
  A \<open>datetime\<close> is the count of microseconds since 0001-01-01 00:00:00. The datetimes
  Python can represent are the counts from 0 to \<open>datetime_max\<close>, the last microsecond of
  the year 9999. \<open>datetime.now()\<close> is an input: each call of the source reads the clock
  once, so each operation takes one reading per call it makes. A \<open>timedelta\<close> is a count
  of microseconds as well; \<open>timedelta(days=n)\<close> raises \<open>OverflowError\<close> when \<open>n\<close> exceeds
  999999999 in magnitude, and so does \<open>datetime - timedelta\<close> when the result is not a
  representable datetime.
\<close>

type_synonym datetime = int

type_synonym timedelta = int

definition day_us :: int where
  "day_us = 86400000000"

definition datetime_max :: datetime where
  "datetime_max = 3652059 * day_us - 1"

definition is_datetime :: "int \<Rightarrow> bool" where
  "is_datetime t = (0 \<le> t \<and> t \<le> datetime_max)"

definition timedelta_days :: "int \<Rightarrow> timedelta outcome" where
  \<comment> \<open>\<open>timedelta(days=n)\<close>\<close>
  "timedelta_days n = (if \<bar>n\<bar> > 999999999 then Inl OverflowError else Inr (n * day_us))"

definition datetime_sub_timedelta :: "datetime \<Rightarrow> timedelta \<Rightarrow> datetime outcome" where
  \<comment> \<open>\<open>t - d\<close> for a datetime \<open>t\<close> and a timedelta \<open>d\<close>\<close>
  "datetime_sub_timedelta t d = (if is_datetime (t - d) then Inr (t - d) else Inl OverflowError)"

definition td_days :: "timedelta \<Rightarrow> int" where
  \<comment> \<open>the \<open>.days\<close> field of a timedelta: whole days, rounded down\<close>
  "td_days d = d div day_us"

section \<open>book.py\<close>

record book =
  book_id :: string
  title :: string
  author :: string
  isbn :: string
  category :: string
  total_copies :: int
  available_copies :: int
  borrowed_by :: "(string, datetime) pydict"

definition Book_init :: "string \<Rightarrow> string \<Rightarrow> string \<Rightarrow> string \<Rightarrow> string \<Rightarrow> int \<Rightarrow> book" where
  "Book_init bid ttl auth isb cat copies =
     \<lparr>book_id = bid, title = ttl, author = auth, isbn = isb, category = cat,
      total_copies = copies, available_copies = copies, borrowed_by = []\<rparr>"

definition is_available :: "book \<Rightarrow> bool" where
  "is_available b = (available_copies b > 0)"

definition Book_borrow :: "book \<Rightarrow> string \<Rightarrow> datetime \<Rightarrow> bool outcome \<times> book" where
  "Book_borrow b mid now =
     (if is_available b
      then (let b1 = b\<lparr>available_copies := available_copies b - 1\<rparr>;
                b2 = b1\<lparr>borrowed_by := dict_setitem (borrowed_by b1) mid now\<rparr>
            in (Inr True, b2))
      else (Inr False, b))"

definition Book_return_book :: "book \<Rightarrow> string \<Rightarrow> bool outcome \<times> book" where
  "Book_return_book b mid =
     (if dict_contains (borrowed_by b) mid
      then (let b1 = b\<lparr>available_copies := available_copies b + 1\<rparr>
            in case dict_delitem (borrowed_by b1) mid of
                 Inl e \<Rightarrow> (Inl e, b1)
               | Inr d \<Rightarrow> (Inr True, b1\<lparr>borrowed_by := d\<rparr>))
      else (Inr False, b))"

section \<open>member.py\<close>

record member =
  member_id :: string
  name :: string
  email :: string
  phone :: string
  membership_type :: string
  join_date :: datetime
  borrowed_books :: "string list"
  borrowing_history :: "(string \<times> datetime \<times> datetime) list"
  max_books :: int

definition Member_init :: "string \<Rightarrow> string \<Rightarrow> string \<Rightarrow> string \<Rightarrow> string \<Rightarrow> datetime \<Rightarrow> member" where
  "Member_init mid nm em ph mtype now =
     \<lparr>member_id = mid, name = nm, email = em, phone = ph, membership_type = mtype,
      join_date = now, borrowed_books = [], borrowing_history = [],
      max_books = (if mtype = ''Premium'' then 5 else 3)\<rparr>"

definition can_borrow :: "member \<Rightarrow> bool" where
  "can_borrow m = (int (length (borrowed_books m)) < max_books m)"

definition Member_borrow_book :: "member \<Rightarrow> string \<Rightarrow> bool outcome \<times> member" where
  "Member_borrow_book m bid =
     (if can_borrow m
      then (Inr True, m\<lparr>borrowed_books := borrowed_books m @ [bid]\<rparr>)
      else (Inr False, m))"

text \<open>
  \<open>Member.return_book\<close> builds its history tuple from two calls of \<open>datetime.now()\<close>:
  \<open>now1\<close> and \<open>now2\<close> are those two readings, in the order of the calls.
\<close>

definition Member_return_book ::
  "member \<Rightarrow> string \<Rightarrow> datetime \<Rightarrow> datetime \<Rightarrow> bool outcome \<times> member" where
  "Member_return_book m bid now1 now2 =
     (if bid \<in> set (borrowed_books m)
      then (case list_remove (borrowed_books m) bid of
              Inl e \<Rightarrow> (Inl e, m)
            | Inr bs \<Rightarrow>
                (let m1 = m\<lparr>borrowed_books := bs\<rparr>;
                     m2 = m1\<lparr>borrowing_history := borrowing_history m1 @ [(bid, now1, now2)]\<rparr>
                 in (Inr True, m2)))
      else (Inr False, m))"

section \<open>library.py\<close>

record transaction =
  timestamp :: datetime
  action :: string
  description :: string

text \<open>
  The fields of \<open>Library\<close> that the book and member operations read or write; none of
  them touches \<open>notification_service\<close> or \<open>attendance_tracker\<close>, and the tracker is
  modelled on its own below. The field \<open>name\<close> of the source is \<open>lib_name\<close> here,
  since \<open>name\<close> is taken by the member record.
\<close>

record library =
  lib_name :: string
  books :: "(string, book) pydict"
  members :: "(string, member) pydict"
  transactions :: "transaction list"

definition Library_init :: "string \<Rightarrow> library" where
  "Library_init nm = \<lparr>lib_name = nm, books = [], members = [], transactions = []\<rparr>"

definition log_transaction :: "library \<Rightarrow> string \<Rightarrow> string \<Rightarrow> datetime \<Rightarrow> library" where
  "log_transaction L act descr now =
     L\<lparr>transactions := transactions L @
          [\<lparr>timestamp = now, action = act, description = descr\<rparr>]\<rparr>"

definition get_book :: "library \<Rightarrow> string \<Rightarrow> book option" where
  "get_book L bid = dict_get (books L) bid"

definition get_member :: "library \<Rightarrow> string \<Rightarrow> member option" where
  "get_member L mid = dict_get (members L) mid"

text \<open>
  The objects in the two dictionaries are mutated in place by the methods of \<open>Book\<close>
  and \<open>Member\<close>; the model writes the changed object back under its key, which keeps
  the key's position.
\<close>

definition store_book :: "library \<Rightarrow> string \<Rightarrow> book \<Rightarrow> library" where
  "store_book L bid b = L\<lparr>books := dict_setitem (books L) bid b\<rparr>"

definition store_member :: "library \<Rightarrow> string \<Rightarrow> member \<Rightarrow> library" where
  "store_member L mid m = L\<lparr>members := dict_setitem (members L) mid m\<rparr>"

definition add_book ::
  "library \<Rightarrow> string \<Rightarrow> string \<Rightarrow> string \<Rightarrow> string \<Rightarrow> string \<Rightarrow> int \<Rightarrow> datetime
     \<Rightarrow> bool outcome \<times> library" where
  "add_book L bid ttl auth isb cat copies now =
     (if dict_contains (books L) bid then (Inr False, L)
      else (let b = Book_init bid ttl auth isb cat copies;
                L1 = L\<lparr>books := dict_setitem (books L) bid b\<rparr>
            in (Inr True, log_transaction L1 ''ADD_BOOK'' (''Added book: '' @ ttl) now)))"

definition remove_book :: "library \<Rightarrow> string \<Rightarrow> datetime \<Rightarrow> bool outcome \<times> library" where
  "remove_book L bid now =
     (if \<not> dict_contains (books L) bid then (Inr False, L)
      else (case dict_getitem (books L) bid of
              Inl e \<Rightarrow> (Inl e, L)
            | Inr b \<Rightarrow>
                if available_copies b < total_copies b then (Inr False, L)
                else (case dict_delitem (books L) bid of
                        Inl e \<Rightarrow> (Inl e, L)
                      | Inr d \<Rightarrow>
                          (Inr True,
                           log_transaction (L\<lparr>books := d\<rparr>) ''REMOVE_BOOK''
                             (''Removed book: '' @ title b) now))))"

definition add_member ::
  "library \<Rightarrow> string \<Rightarrow> string \<Rightarrow> string \<Rightarrow> string \<Rightarrow> string \<Rightarrow> datetime \<Rightarrow> datetime
     \<Rightarrow> bool outcome \<times> library" where
  "add_member L mid nm em ph mtype now_join now =
     (if dict_contains (members L) mid then (Inr False, L)
      else (let m = Member_init mid nm em ph mtype now_join;
                L1 = L\<lparr>members := dict_setitem (members L) mid m\<rparr>
            in (Inr True, log_transaction L1 ''ADD_MEMBER'' (''Added member: '' @ nm) now)))"

definition remove_member :: "library \<Rightarrow> string \<Rightarrow> datetime \<Rightarrow> bool outcome \<times> library" where
  "remove_member L mid now =
     (if \<not> dict_contains (members L) mid then (Inr False, L)
      else (case dict_getitem (members L) mid of
              Inl e \<Rightarrow> (Inl e, L)
            | Inr m \<Rightarrow>
                if borrowed_books m \<noteq> [] then (Inr False, L)
                else (case dict_delitem (members L) mid of
                        Inl e \<Rightarrow> (Inl e, L)
                      | Inr d \<Rightarrow>
                          (Inr True,
                           log_transaction (L\<lparr>members := d\<rparr>) ''REMOVE_MEMBER''
                             (''Removed member: '' @ name m) now))))"

text \<open>
  \<open>borrow_book\<close> and \<open>return_book\<close> evaluate \<open>book.m(...) and member.m(...)\<close>: the
  member's method runs only when the book's method returned \<open>True\<close>, and whatever the
  book's method changed stays changed.
\<close>

definition borrow_book ::
  "library \<Rightarrow> string \<Rightarrow> string \<Rightarrow> datetime \<Rightarrow> datetime \<Rightarrow> bool outcome \<times> library" where
  "borrow_book L mid bid now_borrow now =
     (case get_member L mid of
        None \<Rightarrow> (Inr False, L)
      | Some m \<Rightarrow>
         (case get_book L bid of
            None \<Rightarrow> (Inr False, L)
          | Some b \<Rightarrow>
             if \<not> can_borrow m then (Inr False, L)
             else if \<not> is_available b then (Inr False, L)
             else (case Book_borrow b mid now_borrow of
                     (Inl e, b') \<Rightarrow> (Inl e, store_book L bid b')
                   | (Inr False, b') \<Rightarrow> (Inr False, store_book L bid b')
                   | (Inr True, b') \<Rightarrow>
                      (case Member_borrow_book m bid of
                         (Inl e, m') \<Rightarrow> (Inl e, store_member (store_book L bid b') mid m')
                       | (Inr False, m') \<Rightarrow>
                           (Inr False, store_member (store_book L bid b') mid m')
                       | (Inr True, m') \<Rightarrow>
                           (Inr True,
                            log_transaction (store_member (store_book L bid b') mid m')
                              ''BORROW''
                              (''Member '' @ name m' @ '' borrowed '' @ title b') now)))))"

definition return_book ::
  "library \<Rightarrow> string \<Rightarrow> string \<Rightarrow> datetime \<Rightarrow> datetime \<Rightarrow> datetime
     \<Rightarrow> bool outcome \<times> library" where
  "return_book L mid bid now1 now2 now =
     (case get_member L mid of
        None \<Rightarrow> (Inr False, L)
      | Some m \<Rightarrow>
         (case get_book L bid of
            None \<Rightarrow> (Inr False, L)
          | Some b \<Rightarrow>
             if bid \<notin> set (borrowed_books m) then (Inr False, L)
             else (case Book_return_book b mid of
                     (Inl e, b') \<Rightarrow> (Inl e, store_book L bid b')
                   | (Inr False, b') \<Rightarrow> (Inr False, store_book L bid b')
                   | (Inr True, b') \<Rightarrow>
                      (case Member_return_book m bid now1 now2 of
                         (Inl e, m') \<Rightarrow> (Inl e, store_member (store_book L bid b') mid m')
                       | (Inr False, m') \<Rightarrow>
                           (Inr False, store_member (store_book L bid b') mid m')
                       | (Inr True, m') \<Rightarrow>
                           (Inr True,
                            log_transaction (store_member (store_book L bid b') mid m')
                              ''RETURN''
                              (''Member '' @ name m' @ '' returned '' @ title b') now)))))"

subsection \<open>Queries\<close>

text \<open>
  \<open>search_books\<close> lower-cases the query once, before the loop, and then tests each
  book in the order of the dictionary; the \<open>if\<close>/\<open>elif\<close> chain is kept as written.
\<close>

definition search_step :: "string \<Rightarrow> string \<Rightarrow> book list \<Rightarrow> book \<Rightarrow> book list" where
  \<comment> \<open>the body of the loop: one pass of the \<open>if\<close>/\<open>elif\<close> chain for the book \<open>b\<close>\<close>
  "search_step q search_type results b =
     (if search_type = ''title'' \<and> str_in q (lower (title b)) then results @ [b]
      else if search_type = ''author'' \<and> str_in q (lower (author b)) then results @ [b]
      else if search_type = ''category'' \<and> str_in q (lower (category b)) then results @ [b]
      else if search_type = ''isbn'' \<and> str_in q (isbn b) then results @ [b]
      else results)"

fun search_loop :: "book list \<Rightarrow> string \<Rightarrow> string \<Rightarrow> book list \<Rightarrow> book list" where
  "search_loop [] q search_type results = results"
| "search_loop (b # bs) q search_type results =
     search_loop bs q search_type (search_step q search_type results b)"

definition search_books :: "library \<Rightarrow> string \<Rightarrow> string \<Rightarrow> book list" where
  "search_books L query search_type =
     (let q = lower query in search_loop (dict_values (books L)) q search_type [])"

text \<open>
  \<open>get_overdue_books\<close> reads the clock once for the cutoff (\<open>now\<close>) and once more for
  each entry it emits: \<open>clk k\<close> is the reading taken for the entry with index \<open>k\<close>.
  The dictionary the source appends is a record with the same four fields. The cutoff
  is computed before the loop and can raise; the difference of two datetimes in the
  loop cannot (lemma \<open>datetime_diff_in_range\<close> below).
\<close>

record overdue_entry =
  entry_book :: book
  entry_member :: "member option"
  entry_borrow_date :: datetime
  entry_days_overdue :: int

fun overdue_items_loop ::
  "library \<Rightarrow> book \<Rightarrow> (string \<times> datetime) list \<Rightarrow> datetime \<Rightarrow> (nat \<Rightarrow> datetime)
     \<Rightarrow> overdue_entry list \<Rightarrow> overdue_entry list" where
  "overdue_items_loop L b [] cutoff clk overdue = overdue"
| "overdue_items_loop L b (it # its) cutoff clk overdue =
     overdue_items_loop L b its cutoff clk
       (if snd it < cutoff
        then overdue @
               [\<lparr>entry_book = b, entry_member = get_member L (fst it),
                 entry_borrow_date = snd it,
                 entry_days_overdue = td_days (clk (length overdue) - snd it)\<rparr>]
        else overdue)"

fun overdue_books_loop ::
  "library \<Rightarrow> book list \<Rightarrow> datetime \<Rightarrow> (nat \<Rightarrow> datetime)
     \<Rightarrow> overdue_entry list \<Rightarrow> overdue_entry list" where
  "overdue_books_loop L [] cutoff clk overdue = overdue"
| "overdue_books_loop L (b # bs) cutoff clk overdue =
     overdue_books_loop L bs cutoff clk
       (overdue_items_loop L b (dict_items (borrowed_by b)) cutoff clk overdue)"

definition get_overdue_books ::
  "library \<Rightarrow> int \<Rightarrow> datetime \<Rightarrow> (nat \<Rightarrow> datetime) \<Rightarrow> overdue_entry list outcome" where
  "get_overdue_books L days now clk =
     (case timedelta_days days of
        Inl e \<Rightarrow> Inl e
      | Inr delta \<Rightarrow>
         (case datetime_sub_timedelta now delta of
            Inl e \<Rightarrow> Inl e
          | Inr cutoff_date \<Rightarrow>
              Inr (overdue_books_loop L (dict_values (books L)) cutoff_date clk [])))"

subsection \<open>Sequences of facade operations\<close>

text \<open>
  One constructor per mutating operation of the facade, with the arguments of the call
  followed by the clock readings the call consumes.
\<close>

datatype op =
    AddBook string string string string string int datetime
  | RemoveBook string datetime
  | AddMember string string string string string datetime datetime
  | RemoveMember string datetime
  | BorrowBook string string datetime datetime
  | ReturnBook string string datetime datetime datetime

fun apply_op :: "op \<Rightarrow> library \<Rightarrow> bool outcome \<times> library" where
  "apply_op (AddBook bid ttl auth isb cat copies now) L = add_book L bid ttl auth isb cat copies now"
| "apply_op (RemoveBook bid now) L = remove_book L bid now"
| "apply_op (AddMember mid nm em ph mtype now_join now) L = add_member L mid nm em ph mtype now_join now"
| "apply_op (RemoveMember mid now) L = remove_member L mid now"
| "apply_op (BorrowBook mid bid now_borrow now) L = borrow_book L mid bid now_borrow now"
| "apply_op (ReturnBook mid bid now1 now2 now) L = return_book L mid bid now1 now2 now"

fun exec_ops :: "op list \<Rightarrow> library \<Rightarrow> library" where
  "exec_ops [] L = L"
| "exec_ops (p # ps) L = exec_ops ps (snd (apply_op p L))"

section \<open>attendance.py\<close>

datatype VisitorType = MEMBER | VISITOR | STAFF

fun VisitorType_value :: "VisitorType \<Rightarrow> string" where
  "VisitorType_value MEMBER = ''member''"
| "VisitorType_value VISITOR = ''visitor''"
| "VisitorType_value STAFF = ''staff''"

text \<open>The field \<open>name\<close> of \<open>AttendanceRecord\<close> is \<open>visitor_name\<close> here.\<close>

record attendance_record =
  visitor_id :: string
  visitor_name :: string
  visitor_type :: VisitorType
  entry_time :: datetime
  exit_time :: "datetime option"
  purpose :: string
  is_active :: bool

definition AttendanceRecord_init ::
  "string \<Rightarrow> string \<Rightarrow> VisitorType \<Rightarrow> datetime option \<Rightarrow> datetime \<Rightarrow> attendance_record" where
  \<comment> \<open>\<open>entry_time or datetime.now()\<close>: a datetime is always truthy\<close>
  "AttendanceRecord_init vid nm vt entry now =
     \<lparr>visitor_id = vid, visitor_name = nm, visitor_type = vt,
      entry_time = (case entry of None \<Rightarrow> now | Some t \<Rightarrow> t),
      exit_time = None, purpose = [], is_active = True\<rparr>"

definition AttendanceRecord_check_out ::
  "attendance_record \<Rightarrow> datetime option \<Rightarrow> datetime \<Rightarrow> attendance_record" where
  "AttendanceRecord_check_out r exit now =
     r\<lparr>exit_time := Some (case exit of None \<Rightarrow> now | Some t \<Rightarrow> t), is_active := False\<rparr>"

type_synonym date = int

record tracker =
  attendance_records :: "attendance_record list"
  daily_stats :: "(date, (string, int) pydict) pydict"

definition AttendanceTracker_init :: tracker where
  "AttendanceTracker_init = \<lparr>attendance_records = [], daily_stats = []\<rparr>"

text \<open>Both scans run over \<open>reversed(self.attendance_records)\<close>: the loops below take
  the reversed list.\<close>

fun present_loop :: "attendance_record list \<Rightarrow> string \<Rightarrow> bool" where
  "present_loop [] vid = False"
| "present_loop (r # rs) vid =
     (if visitor_id r = vid \<and> is_active r then True else present_loop rs vid)"

definition is_currently_present :: "tracker \<Rightarrow> string \<Rightarrow> bool" where
  "is_currently_present T vid = present_loop (rev (attendance_records T)) vid"

fun check_out_loop ::
  "attendance_record list \<Rightarrow> string \<Rightarrow> datetime \<Rightarrow> bool \<times> attendance_record list" where
  "check_out_loop [] vid now = (False, [])"
| "check_out_loop (r # rs) vid now =
     (if visitor_id r = vid \<and> is_active r
      then (True, AttendanceRecord_check_out r None now # rs)
      else (case check_out_loop rs vid now of (ok, rs') \<Rightarrow> (ok, r # rs')))"

definition check_out :: "tracker \<Rightarrow> string \<Rightarrow> datetime \<Rightarrow> bool outcome \<times> tracker" where
  "check_out T vid now =
     (case check_out_loop (rev (attendance_records T)) vid now of
        (ok, rs) \<Rightarrow> (Inr ok, T\<lparr>attendance_records := rev rs\<rparr>))"

definition new_day_stats :: "(string, int) pydict" where
  "new_day_stats = [(''total_visitors'', 0), (''members'', 0), (''visitors'', 0), (''staff'', 0)]"

definition stats_increment :: "tracker \<Rightarrow> date \<Rightarrow> string \<Rightarrow> unit outcome \<times> tracker" where
  \<comment> \<open>\<open>self.daily_stats[day][key] += 1\<close>\<close>
  "stats_increment T day key =
     (case dict_getitem (daily_stats T) day of
        Inl e \<Rightarrow> (Inl e, T)
      | Inr st \<Rightarrow>
         (case dict_getitem st key of
            Inl e \<Rightarrow> (Inl e, T)
          | Inr n \<Rightarrow>
              (Inr (),
               T\<lparr>daily_stats := dict_setitem (daily_stats T) day (dict_setitem st key (n + 1))\<rparr>)))"

definition check_in ::
  "tracker \<Rightarrow> string \<Rightarrow> string \<Rightarrow> VisitorType \<Rightarrow> string \<Rightarrow> datetime \<Rightarrow> date
     \<Rightarrow> bool outcome \<times> tracker" where
  "check_in T vid nm vt purp now today =
     (if is_currently_present T vid then (Inr False, T)
      else (let record = (AttendanceRecord_init vid nm vt None now)\<lparr>purpose := purp\<rparr>;
                T1 = T\<lparr>attendance_records := attendance_records T @ [record]\<rparr>;
                T2 = (if \<not> dict_contains (daily_stats T1) today
                      then T1\<lparr>daily_stats := dict_setitem (daily_stats T1) today new_day_stats\<rparr>
                      else T1)
            in case stats_increment T2 today ''total_visitors'' of
                 (Inl e, T3) \<Rightarrow> (Inl e, T3)
               | (Inr u, T3) \<Rightarrow>
                  (case stats_increment T3 today (VisitorType_value vt @ ''s'') of
                     (Inl e, T4) \<Rightarrow> (Inl e, T4)
                   | (Inr u', T4) \<Rightarrow> (Inr True, T4))))"

definition get_current_visitors :: "tracker \<Rightarrow> attendance_record list" where
  "get_current_visitors T = filter is_active (attendance_records T)"

datatype tracker_op =
    CheckIn string string VisitorType string datetime date
  | CheckOut string datetime

fun apply_tracker_op :: "tracker_op \<Rightarrow> tracker \<Rightarrow> bool outcome \<times> tracker" where
  "apply_tracker_op (CheckIn vid nm vt purp now today) T = check_in T vid nm vt purp now today"
| "apply_tracker_op (CheckOut vid now) T = check_out T vid now"

text \<open>A call that raises leaves the tracker as it was at the raise; later calls go on
  from there.\<close>

fun exec_tracker_ops :: "tracker_op list \<Rightarrow> tracker \<Rightarrow> tracker" where
  "exec_tracker_ops [] T = T"
| "exec_tracker_ops (p # ps) T = exec_tracker_ops ps (snd (apply_tracker_op p T))"

definition active_count :: "tracker \<Rightarrow> string \<Rightarrow> nat" where
  "active_count T vid =
     length (filter (\<lambda>r. visitor_id r = vid) (get_current_visitors T))"

section \<open>Invariants and specification-side definitions\<close>

text \<open>
  What makes the association lists dictionaries: one pair per key, each book stored
  under its own id, and one borrower entry per member in each book.
\<close>

definition wf_books :: "(string, book) pydict \<Rightarrow> bool" where
  "wf_books d =
     (distinct (map fst d) \<and>
      list_all (\<lambda>p. book_id (snd p) = fst p \<and> distinct (map fst (borrowed_by (snd p)))) d)"

definition wf_library :: "library \<Rightarrow> bool" where
  "wf_library L = (wf_books (books L) \<and> distinct (map fst (members L)))"

text \<open>The invariant behind the borrowing limit, for one member and for the directory.\<close>

definition member_ok :: "member \<Rightarrow> bool" where
  "member_ok m =
     (int (length (borrowed_books m)) \<le> max_books m \<and>
      max_books m = (if membership_type m = ''Premium'' then 5 else 3))"

definition members_ok :: "library \<Rightarrow> bool" where
  "members_ok L = list_all member_ok (dict_values (members L))"

text \<open>
  The test \<open>search_books\<close> applies to one book, as a predicate of the query as the
  caller passed it.
\<close>

definition book_matches :: "string \<Rightarrow> string \<Rightarrow> book \<Rightarrow> bool" where
  "book_matches query search_type b =
     (if search_type = ''title'' then str_in (lower query) (lower (title b))
      else if search_type = ''author'' then str_in (lower query) (lower (author b))
      else if search_type = ''category'' then str_in (lower query) (lower (category b))
      else if search_type = ''isbn'' then str_in (lower query) (isbn b)
      else False)"

text \<open>
  The specification of \<open>overdueBooks\<close>, in its own words: the (book, borrower,
  borrow date) triples of the catalog with \<open>now - borrow_date > days\<close>, the right-hand
  side being the length of \<open>days\<close> days, in iteration order, and the entry built from the
  \<open>k\<close>-th of them.
\<close>

definition overdue_triples :: "library \<Rightarrow> int \<Rightarrow> datetime \<Rightarrow> (book \<times> string \<times> datetime) list" where
  "overdue_triples L days now =
     concat (map (\<lambda>b. map (\<lambda>it. (b, fst it, snd it))
                        (filter (\<lambda>it. now - snd it > days * day_us)
                           (dict_items (borrowed_by b))))
               (dict_values (books L)))"

text \<open>
  The calls on which the cutoff \<open>now - timedelta(days=days)\<close> exists: \<open>days\<close> fits a
  timedelta and the cutoff is a datetime of the years 1 to 9999.
\<close>

definition cutoff_representable :: "int \<Rightarrow> datetime \<Rightarrow> bool" where
  "cutoff_representable days now =
     (\<bar>days\<bar> \<le> 999999999 \<and> is_datetime (now - days * day_us))"

definition overdue_entry_of ::
  "library \<Rightarrow> (nat \<Rightarrow> datetime) \<Rightarrow> nat \<times> book \<times> string \<times> datetime \<Rightarrow> overdue_entry" where
  "overdue_entry_of L clk p =
     (case p of (k, b, mid, bd) \<Rightarrow>
        \<lparr>entry_book = b, entry_member = get_member L mid, entry_borrow_date = bd,
         entry_days_overdue = td_days (clk k - bd)\<rparr>)"

text \<open>The overdue triples of one book, against a cutoff.\<close>

definition overdue_triples_of_book ::
  "book \<Rightarrow> datetime \<Rightarrow> (book \<times> string \<times> datetime) list" where
  "overdue_triples_of_book b cutoff =
     map (\<lambda>it. (b, fst it, snd it)) (filter (\<lambda>it. snd it < cutoff) (dict_items (borrowed_by b)))"

text \<open>What identifies an emitted entry.\<close>

definition entry_summary :: "overdue_entry \<Rightarrow> string \<times> string option \<times> datetime \<times> int" where
  "entry_summary e =
     (book_id (entry_book e), map_option member_id (entry_member e),
      entry_borrow_date e, entry_days_overdue e)"

text \<open>The number of active records of a visitor in a list of records.\<close>

definition active_in :: "attendance_record list \<Rightarrow> string \<Rightarrow> nat" where
  "active_in rs vid = length (filter (\<lambda>r. visitor_id r = vid \<and> is_active r) rs)"

section \<open>Example scenarios\<close>

text \<open>A Regular member who has borrowed three different books.\<close>

definition limit_ops :: "op list" where
  "limit_ops =
     [AddMember ''M1'' ''Ann'' ''ann@example.org'' ''555'' ''Regular'' 1 1,
      AddBook ''B1'' ''Emma'' ''Austen'' ''111'' ''Novel'' 1 2,
      AddBook ''B2'' ''Ulysses'' ''Joyce'' ''222'' ''Novel'' 1 3,
      AddBook ''B3'' ''Walden'' ''Thoreau'' ''333'' ''Essay'' 1 4,
      AddBook ''B4'' ''Dune'' ''Herbert'' ''444'' ''Novel'' 1 5,
      BorrowBook ''M1'' ''B1'' 6 6,
      BorrowBook ''M1'' ''B2'' 7 7,
      BorrowBook ''M1'' ''B3'' 8 8]"

text \<open>One member borrows the same two-copy book twice.\<close>

definition double_borrow_ops :: "op list" where
  "double_borrow_ops =
     [AddBook ''B1'' ''Emma'' ''Austen'' ''111'' ''Novel'' 2 1,
      AddMember ''M1'' ''Ann'' ''ann@example.org'' ''555'' ''Regular'' 2 2,
      BorrowBook ''M1'' ''B1'' 3 3,
      BorrowBook ''M1'' ''B1'' 4 4]"

text \<open>A member holds two different books; the first has copies left.\<close>

definition reorder_ops :: "op list" where
  "reorder_ops =
     [AddBook ''B1'' ''Emma'' ''Austen'' ''111'' ''Novel'' 3 1,
      AddBook ''B2'' ''Ulysses'' ''Joyce'' ''222'' ''Novel'' 1 2,
      AddMember ''M1'' ''Ann'' ''ann@example.org'' ''555'' ''Regular'' 3 3,
      BorrowBook ''M1'' ''B1'' 4 4,
      BorrowBook ''M1'' ''B2'' 5 5]"

text \<open>A member who holds one book.\<close>

definition holding_member :: member where
  "holding_member =
     (Member_init ''M1'' ''Ann'' ''ann@example.org'' ''555'' ''Regular'' 0)
       \<lparr>borrowed_books := [''B1'']\<rparr>"

text \<open>A catalog with one book whose ISBN-10 ends in the check digit X.\<close>

definition isbn_library :: library where
  "isbn_library =
     exec_ops [AddBook ''B1'' ''The Hobbit'' ''Tolkien'' ''080442957X'' ''Fantasy'' 1 1]
       (Library_init ''Lib'')"

text \<open>A catalog of two books.\<close>

definition search_library :: library where
  "search_library =
     exec_ops [AddBook ''B1'' ''The Hobbit'' ''Tolkien'' ''080442957X'' ''Fantasy'' 1 1,
               AddBook ''B2'' ''Emma'' ''Austen'' ''222'' ''Novel'' 1 2]
       (Library_init ''Lib'')"

text \<open>
  Midnight of the day \<open>n\<close> days after 0001-01-01: \<open>day 738885\<close> is 2024-01-01. A clock
  that gives the same reading at every call.
\<close>

definition day :: "int \<Rightarrow> datetime" where
  "day n = n * day_us"

definition steady_clock :: "datetime \<Rightarrow> nat \<Rightarrow> datetime" where
  "steady_clock t k = t"

text \<open>
  Three loans of one member, made on 2024-01-06, 2024-01-07 and 2024-01-11: 15, 14 and
  10 days before 2024-01-21, which is \<open>day 738905\<close>.
\<close>

definition overdue_library :: library where
  "overdue_library =
     exec_ops
       [AddBook ''B1'' ''Emma'' ''Austen'' ''111'' ''Novel'' 1 (day 738885),
        AddBook ''B2'' ''Ulysses'' ''Joyce'' ''222'' ''Novel'' 1 (day 738885),
        AddBook ''B3'' ''Walden'' ''Thoreau'' ''333'' ''Essay'' 1 (day 738885),
        AddMember ''M1'' ''Ann'' ''ann@example.org'' ''555'' ''Regular'' (day 738885) (day 738885),
        BorrowBook ''M1'' ''B1'' (day 738890) (day 738890),
        BorrowBook ''M1'' ''B3'' (day 738891) (day 738891),
        BorrowBook ''M1'' ''B2'' (day 738895) (day 738895)]
       (Library_init ''Lib'')"

text \<open>One visitor checks in.\<close>

definition one_visitor_ops :: "tracker_op list" where
  "one_visitor_ops = [CheckIn ''V1'' ''Vic'' VISITOR ''reading room'' 10 1]"

section \<open>Properties of the facade operations\<close>

subsection \<open>Totality and rejection without mutation\<close>

lemma dict_getitem_contains:
  "dict_contains d k \<Longrightarrow> \<exists>v. dict_getitem d k = Inr v \<and> map_of d k = Some v"
  by (auto simp: dict_contains_def dict_getitem_def weak_map_of_SomeI split: option.splits
           dest: map_of_eq_None_iff[THEN iffD1, rotated])

lemma dict_setitem_same: "map_of d k = Some v \<Longrightarrow> dict_setitem d k v = d"
  by (induction d) (auto split: if_splits)

lemma Book_borrow_available:
  "is_available b \<Longrightarrow> fst (Book_borrow b mid now) = Inr True"
  by (simp add: Book_borrow_def Let_def)

lemma Member_borrow_book_can:
  "can_borrow m \<Longrightarrow> fst (Member_borrow_book m bid) = Inr True"
  by (simp add: Member_borrow_book_def)

lemma Book_return_book_cases:
  "(fst (Book_return_book b mid) = Inr True \<and> dict_contains (borrowed_by b) mid)
   \<or> Book_return_book b mid = (Inr False, b)"
  by (simp add: Book_return_book_def dict_delitem_def Let_def)

lemma Member_return_book_held:
  "bid \<in> set (borrowed_books m) \<Longrightarrow> fst (Member_return_book m bid now1 now2) = Inr True"
  by (simp add: Member_return_book_def list_remove_def Let_def)

lemma add_book_total:
  "fst (add_book L bid ttl auth isb cat copies now) = Inr True \<or>
   add_book L bid ttl auth isb cat copies now = (Inr False, L)"
  by (simp add: add_book_def Let_def)

lemma add_member_total:
  "fst (add_member L mid nm em ph mtype nj now) = Inr True \<or>
   add_member L mid nm em ph mtype nj now = (Inr False, L)"
  by (simp add: add_member_def Let_def)

lemma remove_book_total:
  "fst (remove_book L bid now) = Inr True \<or> remove_book L bid now = (Inr False, L)"
proof (cases "dict_contains (books L) bid")
  case False
  then show ?thesis by (simp add: remove_book_def)
next
  case True
  from dict_getitem_contains[OF True] obtain b where "dict_getitem (books L) bid = Inr b"
    by auto
  with True show ?thesis
    by (simp add: remove_book_def dict_delitem_def)
qed

lemma remove_member_total:
  "fst (remove_member L mid now) = Inr True \<or> remove_member L mid now = (Inr False, L)"
proof (cases "dict_contains (members L) mid")
  case False
  then show ?thesis by (simp add: remove_member_def)
next
  case True
  from dict_getitem_contains[OF True] obtain m where "dict_getitem (members L) mid = Inr m"
    by auto
  with True show ?thesis
    by (simp add: remove_member_def dict_delitem_def)
qed

lemma borrow_book_total:
  "fst (borrow_book L mid bid nb now) = Inr True \<or>
   borrow_book L mid bid nb now = (Inr False, L)"
proof (cases "get_member L mid")
  case None
  then show ?thesis by (simp add: borrow_book_def)
next
  case (Some m)
  note m = this
  show ?thesis
  proof (cases "get_book L bid")
    case None
    with m show ?thesis by (simp add: borrow_book_def)
  next
    case (Some b)
    show ?thesis
    proof (cases "can_borrow m \<and> is_available b")
      case False
      with m Some show ?thesis by (simp add: borrow_book_def)
    next
      case True
      obtain r1 b' where bb: "Book_borrow b mid nb = (r1, b')" by (cases "Book_borrow b mid nb")
      obtain r2 m' where mb: "Member_borrow_book m bid = (r2, m')" by (cases "Member_borrow_book m bid")
      from True bb have r1: "r1 = Inr True" using Book_borrow_available[of b mid nb] by simp
      from True mb have r2: "r2 = Inr True" using Member_borrow_book_can[of m bid] by simp
      from m Some True bb mb r1 r2 show ?thesis by (simp add: borrow_book_def)
    qed
  qed
qed

lemma return_book_total:
  "fst (return_book L mid bid n1 n2 now) = Inr True \<or>
   return_book L mid bid n1 n2 now = (Inr False, L)"
proof (cases "get_member L mid")
  case None
  then show ?thesis by (simp add: return_book_def)
next
  case (Some m)
  note m = this
  show ?thesis
  proof (cases "get_book L bid")
    case None
    with m show ?thesis by (simp add: return_book_def)
  next
    case (Some b)
    show ?thesis
    proof (cases "bid \<in> set (borrowed_books m)")
      case False
      with m Some show ?thesis by (simp add: return_book_def)
    next
      case True
      obtain r2 m' where mb: "Member_return_book m bid n1 n2 = (r2, m')"
        by (cases "Member_return_book m bid n1 n2")
      from True mb have r2: "r2 = Inr True" using Member_return_book_held[of bid m n1 n2] by simp
      from Book_return_book_cases[of b mid] show ?thesis
      proof
        assume "fst (Book_return_book b mid) = Inr True \<and> dict_contains (borrowed_by b) mid"
        then obtain b' where "Book_return_book b mid = (Inr True, b')"
          by (cases "Book_return_book b mid") simp
        with m Some True mb r2 show ?thesis by (simp add: return_book_def)
      next
        assume nb: "Book_return_book b mid = (Inr False, b)"
        from Some have "store_book L bid b = L"
          by (simp add: store_book_def get_book_def dict_get_def dict_setitem_same)
        with m Some True nb show ?thesis by (simp add: return_book_def)
      qed
    qed
  qed
qed

lemma apply_op_cases:
  "fst (apply_op p L) = Inr True \<or> apply_op p L = (Inr False, L)"
proof (cases p)
  case (AddBook bid ttl auth isb cat copies now)
  then show ?thesis using add_book_total[of L bid ttl auth isb cat copies now] by simp
next
  case (RemoveBook bid now)
  then show ?thesis using remove_book_total[of L bid now] by simp
next
  case (AddMember mid nm em ph mtype nj now)
  then show ?thesis using add_member_total[of L mid nm em ph mtype nj now] by simp
next
  case (RemoveMember mid now)
  then show ?thesis using remove_member_total[of L mid now] by simp
next
  case (BorrowBook mid bid nb now)
  then show ?thesis using borrow_book_total[of L mid bid nb now] by simp
next
  case (ReturnBook mid bid n1 n2 now)
  then show ?thesis using return_book_total[of L mid bid n1 n2 now] by simp
qed

text \<open>
  C3. Every mutating facade operation returns a boolean and never raises: the
  outcome is never \<open>Inl\<close>, although the dictionary and list primitives the operations
  use can raise. Whenever the operation returns \<open>False\<close>, the whole library state
  (books, members, transaction log) is the state before the call. This holds from
  every state, reachable or not.
\<close>

theorem apply_op_total_and_atomic:
  "(\<exists>r. fst (apply_op p L) = Inr r) \<and>
   (fst (apply_op p L) = Inr False \<longrightarrow> snd (apply_op p L) = L)"
  using apply_op_cases[of p L] by auto

theorem apply_op_total_and_atomic_witness:
  "fst (apply_op (RemoveBook ''B1'' 7) (Library_init ''Lib'')) = Inr False \<and>
   snd (apply_op (RemoveBook ''B1'' 7) (Library_init ''Lib'')) = Library_init ''Lib''"
proof -
  have h: "fst (apply_op (RemoveBook ''B1'' 7) (Library_init ''Lib'')) = Inr False"
    by (simp add: remove_book_def Library_init_def dict_contains_def)
  from apply_op_total_and_atomic[of "RemoveBook ''B1'' 7" "Library_init ''Lib''"] h
  show ?thesis by blast
qed

subsection \<open>The borrowing limit\<close>

lemma dict_values_setitem:
  "set (dict_values (dict_setitem d k v)) \<subseteq> insert v (set (dict_values d))"
  by (induction d) (auto simp: dict_values_def)

lemma dict_values_delitem:
  "dict_delitem d k = Inr d' \<Longrightarrow> set (dict_values d') \<subseteq> set (dict_values d)"
  by (auto simp: dict_delitem_def dict_values_def split: if_splits)

lemma dict_get_values: "dict_get d k = Some v \<Longrightarrow> v \<in> set (dict_values d)"
  by (auto simp: dict_get_def dict_values_def dest: map_of_SomeD intro: rev_image_eqI)

lemma borrow_book_True:
  assumes "fst (borrow_book L mid bid nb now) = Inr True"
  obtains m b where "get_member L mid = Some m" and "get_book L bid = Some b"
    and "can_borrow m" and "is_available b"
    and "snd (borrow_book L mid bid nb now) =
           log_transaction
             (store_member
                (store_book L bid
                   (b\<lparr>available_copies := available_copies b - 1,
                      borrowed_by := dict_setitem (borrowed_by b) mid nb\<rparr>))
                mid (m\<lparr>borrowed_books := borrowed_books m @ [bid]\<rparr>))
             ''BORROW'' (''Member '' @ name m @ '' borrowed '' @ title b) now"
proof -
  from assms obtain m where m: "get_member L mid = Some m"
    by (cases "get_member L mid") (simp_all add: borrow_book_def)
  from assms m obtain b where b: "get_book L bid = Some b"
    by (cases "get_book L bid") (simp_all add: borrow_book_def)
  from assms m b have c: "can_borrow m" "is_available b"
    by (auto simp: borrow_book_def split: if_splits)
  from m b c have
    "snd (borrow_book L mid bid nb now) =
           log_transaction
             (store_member
                (store_book L bid
                   (b\<lparr>available_copies := available_copies b - 1,
                      borrowed_by := dict_setitem (borrowed_by b) mid nb\<rparr>))
                mid (m\<lparr>borrowed_books := borrowed_books m @ [bid]\<rparr>))
             ''BORROW'' (''Member '' @ name m @ '' borrowed '' @ title b) now"
    by (simp add: borrow_book_def Book_borrow_def Member_borrow_book_def Let_def)
  with m b c show thesis using that by blast
qed

lemma return_book_True:
  assumes "fst (return_book L mid bid n1 n2 now) = Inr True"
  obtains m b where "get_member L mid = Some m" and "get_book L bid = Some b"
    and "bid \<in> set (borrowed_books m)" and "dict_contains (borrowed_by b) mid"
    and "snd (return_book L mid bid n1 n2 now) =
           log_transaction
             (store_member
                (store_book L bid
                   (b\<lparr>available_copies := available_copies b + 1,
                      borrowed_by := filter (\<lambda>p. fst p \<noteq> mid) (borrowed_by b)\<rparr>))
                mid (m\<lparr>borrowed_books := remove1 bid (borrowed_books m),
                       borrowing_history := borrowing_history m @ [(bid, n1, n2)]\<rparr>))
             ''RETURN'' (''Member '' @ name m @ '' returned '' @ title b) now"
proof -
  from assms obtain m where m: "get_member L mid = Some m"
    by (cases "get_member L mid") (simp_all add: return_book_def)
  from assms m obtain b where b: "get_book L bid = Some b"
    by (cases "get_book L bid") (simp_all add: return_book_def)
  from assms m b have h: "bid \<in> set (borrowed_books m)"
    by (auto simp: return_book_def split: if_splits)
  have c: "dict_contains (borrowed_by b) mid"
  proof (rule ccontr)
    assume "\<not> dict_contains (borrowed_by b) mid"
    then have "Book_return_book b mid = (Inr False, b)" by (simp add: Book_return_book_def)
    with assms m b h show False by (simp add: return_book_def)
  qed
  from m b h c have
    "snd (return_book L mid bid n1 n2 now) =
           log_transaction
             (store_member
                (store_book L bid
                   (b\<lparr>available_copies := available_copies b + 1,
                      borrowed_by := filter (\<lambda>p. fst p \<noteq> mid) (borrowed_by b)\<rparr>))
                mid (m\<lparr>borrowed_books := remove1 bid (borrowed_books m),
                       borrowing_history := borrowing_history m @ [(bid, n1, n2)]\<rparr>))
             ''RETURN'' (''Member '' @ name m @ '' returned '' @ title b) now"
    by (simp add: return_book_def Book_return_book_def Member_return_book_def
                  dict_delitem_def list_remove_def Let_def)
  with m b h c show thesis using that by blast
qed

lemma members_ok_subset:
  "members_ok L \<Longrightarrow> set (dict_values (members L')) \<subseteq> insert m (set (dict_values (members L)))
     \<Longrightarrow> member_ok m \<Longrightarrow> members_ok L'"
  by (auto simp: members_ok_def list_all_iff)

lemma members_log [simp]: "members (log_transaction L a d t) = members L"
  by (simp add: log_transaction_def)

lemma members_store_book [simp]: "members (store_book L bid b) = members L"
  by (simp add: store_book_def)

lemma members_store_member [simp]:
  "members (store_member L mid m) = dict_setitem (members L) mid m"
  by (simp add: store_member_def)

lemma length_remove1_le: "length (remove1 x xs) \<le> length xs"
  by (induction xs) auto

lemma apply_op_members_ok:
  assumes "members_ok L"
  shows "members_ok (snd (apply_op p L))"
proof (cases "fst (apply_op p L) = Inr True")
  case False
  with apply_op_cases[of p L] assms show ?thesis by simp
next
  case True
  show ?thesis
  proof (cases p)
    case (AddBook bid ttl auth isb cat copies now)
    with assms show ?thesis
      by (simp add: add_book_def Let_def members_ok_def log_transaction_def)
  next
    case (RemoveBook bid now)
    with assms show ?thesis
      by (auto simp: remove_book_def members_ok_def log_transaction_def
               split: sum.splits)
  next
    case (AddMember mid nm em ph mtype nj now)
    have ok: "member_ok (Member_init mid nm em ph mtype nj)"
      by (simp add: member_ok_def Member_init_def)
    show ?thesis
    proof (cases "dict_contains (members L) mid")
      case True
      with AddMember assms show ?thesis by (simp add: add_member_def)
    next
      case False
      with AddMember have "members (snd (apply_op p L)) =
          dict_setitem (members L) mid (Member_init mid nm em ph mtype nj)"
        by (simp add: add_member_def Let_def)
      with members_ok_subset[OF assms _ ok] dict_values_setitem show ?thesis by metis
    qed
  next
    case (RemoveMember mid now)
    with assms show ?thesis
      by (auto simp: remove_member_def members_ok_def list_all_iff
               split: sum.splits dest!: dict_values_delitem)
  next
    case (BorrowBook mid bid nb now)
    with True have t: "fst (borrow_book L mid bid nb now) = Inr True" by simp
    from t obtain m where m: "get_member L mid = Some m" and c: "can_borrow m"
      and s: "members (snd (borrow_book L mid bid nb now)) =
                dict_setitem (members L) mid (m\<lparr>borrowed_books := borrowed_books m @ [bid]\<rparr>)"
      by (rule borrow_book_True) simp
    from m have "m \<in> set (dict_values (members L))"
      by (simp add: get_member_def dict_get_values)
    with assms have "member_ok m" by (simp add: members_ok_def list_all_iff)
    with c have ok: "member_ok (m\<lparr>borrowed_books := borrowed_books m @ [bid]\<rparr>)"
      by (simp add: member_ok_def can_borrow_def)
    from s BorrowBook members_ok_subset[OF assms _ ok] dict_values_setitem show ?thesis
      by (metis apply_op.simps(5))
  next
    case (ReturnBook mid bid n1 n2 now)
    with True have t: "fst (return_book L mid bid n1 n2 now) = Inr True" by simp
    from t obtain m where m: "get_member L mid = Some m"
      and s: "members (snd (return_book L mid bid n1 n2 now)) =
                dict_setitem (members L) mid
                  (m\<lparr>borrowed_books := remove1 bid (borrowed_books m),
                     borrowing_history := borrowing_history m @ [(bid, n1, n2)]\<rparr>)"
      by (rule return_book_True) simp
    from m have "m \<in> set (dict_values (members L))"
      by (simp add: get_member_def dict_get_values)
    with assms have "member_ok m" by (simp add: members_ok_def list_all_iff)
    then have ok: "member_ok (m\<lparr>borrowed_books := remove1 bid (borrowed_books m),
                     borrowing_history := borrowing_history m @ [(bid, n1, n2)]\<rparr>)"
      using length_remove1_le[of bid "borrowed_books m"] by (simp add: member_ok_def)
    from s ReturnBook members_ok_subset[OF assms _ ok] dict_values_setitem show ?thesis
      by (metis apply_op.simps(6))
  qed
qed

lemma exec_ops_members_ok: "members_ok L \<Longrightarrow> members_ok (exec_ops ops L)"
  by (induction ops arbitrary: L) (simp_all add: apply_op_members_ok)

lemma Library_init_members_ok: "members_ok (Library_init nm)"
  by (simp add: members_ok_def Library_init_def dict_values_def)

text \<open>
  C8. In every state reached from an empty library by a sequence of facade operations,
  every member holds at most \<open>max_books\<close> books, where \<open>max_books\<close> is 5 for the
  membership type "Premium" and 3 for every other type; and for a Regular member who
  holds 3 books, \<open>borrow_book\<close> returns \<open>False\<close> and leaves the library unchanged.
\<close>

theorem member_limit_invariant:
  assumes "L = exec_ops ops (Library_init nm)"
  shows "(\<forall>m \<in> set (dict_values (members L)).
            int (length (borrowed_books m)) \<le> max_books m \<and>
            max_books m = (if membership_type m = ''Premium'' then 5 else 3)) \<and>
         (\<forall>mid m bid now_borrow now.
            get_member L mid = Some m \<and> membership_type m = ''Regular'' \<and>
            length (borrowed_books m) = 3 \<longrightarrow>
            borrow_book L mid bid now_borrow now = (Inr False, L))"
proof -
  have ok: "members_ok L"
    using assms exec_ops_members_ok[OF Library_init_members_ok] by simp
  have part1: "\<forall>m \<in> set (dict_values (members L)).
            int (length (borrowed_books m)) \<le> max_books m \<and>
            max_books m = (if membership_type m = ''Premium'' then 5 else 3)"
    using ok unfolding members_ok_def list_all_iff member_ok_def by blast
  have part2: "borrow_book L mid bid now_borrow now = (Inr False, L)"
    if g: "get_member L mid = Some m" and r: "membership_type m = ''Regular''"
      and l: "length (borrowed_books m) = 3" for mid m bid now_borrow now
  proof -
    from g have "m \<in> set (dict_values (members L))"
      by (simp add: get_member_def dict_get_values)
    with part1 r have "max_books m = 3" by simp
    with l have "\<not> can_borrow m" by (simp add: can_borrow_def)
    with g show ?thesis by (simp add: borrow_book_def split: option.splits)
  qed
  from part1 part2 show ?thesis by blast
qed

lemma limit_ops_member:
  "get_member (exec_ops limit_ops (Library_init ''Lib'')) ''M1'' =
     Some \<lparr>member_id = ''M1'', name = ''Ann'', email = ''ann@example.org'', phone = ''555'',
           membership_type = ''Regular'', join_date = 1,
           borrowed_books = [''B1'', ''B2'', ''B3''], borrowing_history = [], max_books = 3\<rparr>"
  by code_simp

theorem member_limit_invariant_witness:
  "borrow_book (exec_ops limit_ops (Library_init ''Lib'')) ''M1'' ''B4'' 9 9 =
     (Inr False, exec_ops limit_ops (Library_init ''Lib''))"
  using member_limit_invariant[OF refl, of limit_ops "''Lib''"] limit_ops_member
  by simp

subsection \<open>Dictionaries keep one entry per key\<close>

lemma set_dict_setitem: "set (dict_setitem d k v) \<subseteq> insert (k, v) (set d)"
  by (induction d) auto

lemma keys_dict_setitem:
  "map fst (dict_setitem d k v) = (if k \<in> set (map fst d) then map fst d else map fst d @ [k])"
  by (induction d) auto

lemma distinct_dict_setitem:
  "distinct (map fst d) \<Longrightarrow> distinct (map fst (dict_setitem d k v))"
  by (simp add: keys_dict_setitem)

lemma distinct_dict_delitem:
  "distinct (map fst d) \<Longrightarrow> dict_delitem d k = Inr d' \<Longrightarrow> distinct (map fst d')"
  by (auto simp: dict_delitem_def distinct_map_filter split: if_splits)

lemma wf_books_setitem:
  assumes "wf_books d" and "book_id b = k" and "distinct (map fst (borrowed_by b))"
  shows "wf_books (dict_setitem d k b)"
  using assms set_dict_setitem[of d k b]
  by (auto simp: wf_books_def list_all_iff distinct_dict_setitem)

lemma wf_books_delitem:
  "wf_books d \<Longrightarrow> dict_delitem d k = Inr d' \<Longrightarrow> wf_books d'"
  by (auto simp: wf_books_def list_all_iff dict_delitem_def distinct_map_filter
           split: if_splits)

lemma wf_books_get:
  "wf_books d \<Longrightarrow> dict_get d k = Some b \<Longrightarrow>
     book_id b = k \<and> distinct (map fst (borrowed_by b))"
  by (auto simp: wf_books_def list_all_iff dict_get_def dest!: map_of_SomeD)

lemma books_log [simp]: "books (log_transaction L a d t) = books L"
  by (simp add: log_transaction_def)

lemma books_store_member [simp]: "books (store_member L mid m) = books L"
  by (simp add: store_member_def)

lemma books_store_book [simp]: "books (store_book L bid b) = dict_setitem (books L) bid b"
  by (simp add: store_book_def)

lemma apply_op_wf:
  assumes "wf_library L"
  shows "wf_library (snd (apply_op p L))"
proof (cases "fst (apply_op p L) = Inr True")
  case False
  with apply_op_cases[of p L] assms show ?thesis by simp
next
  case True
  from assms have wb: "wf_books (books L)" and dm: "distinct (map fst (members L))"
    by (simp_all add: wf_library_def)
  show ?thesis
  proof (cases p)
    case (AddBook bid ttl auth isb cat copies now)
    have "wf_books (dict_setitem (books L) bid (Book_init bid ttl auth isb cat copies))"
      by (rule wf_books_setitem[OF wb]) (simp_all add: Book_init_def)
    with AddBook dm wb show ?thesis
      by (simp add: add_book_def Let_def wf_library_def log_transaction_def)
  next
    case (RemoveBook bid now)
    with wb dm show ?thesis
      by (auto simp: remove_book_def wf_library_def log_transaction_def
               split: sum.splits if_splits dest: wf_books_delitem)
  next
    case (AddMember mid nm em ph mtype nj now)
    with wb dm show ?thesis
      by (simp add: add_member_def Let_def wf_library_def log_transaction_def
                    distinct_dict_setitem)
  next
    case (RemoveMember mid now)
    with wb dm show ?thesis
      by (auto simp: remove_member_def wf_library_def log_transaction_def
               split: sum.splits if_splits dest: distinct_dict_delitem)
  next
    case (BorrowBook mid bid nb now)
    with True have t: "fst (borrow_book L mid bid nb now) = Inr True" by simp
    from t obtain m b where b: "get_book L bid = Some b"
      and s: "snd (borrow_book L mid bid nb now) =
           log_transaction
             (store_member
                (store_book L bid
                   (b\<lparr>available_copies := available_copies b - 1,
                      borrowed_by := dict_setitem (borrowed_by b) mid nb\<rparr>))
                mid (m\<lparr>borrowed_books := borrowed_books m @ [bid]\<rparr>))
             ''BORROW'' (''Member '' @ name m @ '' borrowed '' @ title b) now"
      by (rule borrow_book_True) blast
    from wf_books_get[OF wb] b have "book_id b = bid" "distinct (map fst (borrowed_by b))"
      by (simp_all add: get_book_def)
    then have "wf_books (dict_setitem (books L) bid
                   (b\<lparr>available_copies := available_copies b - 1,
                      borrowed_by := dict_setitem (borrowed_by b) mid nb\<rparr>))"
      by (intro wf_books_setitem[OF wb]) (simp_all add: distinct_dict_setitem)
    with BorrowBook s dm show ?thesis
      by (simp add: wf_library_def distinct_dict_setitem)
  next
    case (ReturnBook mid bid n1 n2 now)
    with True have t: "fst (return_book L mid bid n1 n2 now) = Inr True" by simp
    from t obtain m b where b: "get_book L bid = Some b"
      and s: "snd (return_book L mid bid n1 n2 now) =
           log_transaction
             (store_member
                (store_book L bid
                   (b\<lparr>available_copies := available_copies b + 1,
                      borrowed_by := filter (\<lambda>p. fst p \<noteq> mid) (borrowed_by b)\<rparr>))
                mid (m\<lparr>borrowed_books := remove1 bid (borrowed_books m),
                       borrowing_history := borrowing_history m @ [(bid, n1, n2)]\<rparr>))
             ''RETURN'' (''Member '' @ name m @ '' returned '' @ title b) now"
      by (rule return_book_True) blast
    from wf_books_get[OF wb] b have "book_id b = bid" "distinct (map fst (borrowed_by b))"
      by (simp_all add: get_book_def)
    then have "wf_books (dict_setitem (books L) bid
                   (b\<lparr>available_copies := available_copies b + 1,
                      borrowed_by := filter (\<lambda>p. fst p \<noteq> mid) (borrowed_by b)\<rparr>))"
      by (intro wf_books_setitem[OF wb]) (simp_all add: distinct_map_filter)
    with ReturnBook s dm show ?thesis
      by (simp add: wf_library_def distinct_dict_setitem)
  qed
qed

lemma exec_ops_wf: "wf_library L \<Longrightarrow> wf_library (exec_ops ops L)"
  by (induction ops arbitrary: L) (simp_all add: apply_op_wf)

lemma reachable_wf: "wf_library (exec_ops ops (Library_init nm))"
  by (rule exec_ops_wf) (simp add: wf_library_def wf_books_def Library_init_def)

subsection \<open>Borrowing and returning\<close>

lemma dict_get_setitem_same: "dict_get (dict_setitem d k v) k = Some v"
  by (induction d) (auto simp: dict_get_def)

lemma dict_contains_setitem_same: "dict_contains (dict_setitem d k v) k"
  by (induction d) (auto simp: dict_contains_def)

lemma get_member_log [simp]: "get_member (log_transaction L a d t) mid = get_member L mid"
  by (simp add: get_member_def log_transaction_def)

lemma get_book_log [simp]: "get_book (log_transaction L a d t) bid = get_book L bid"
  by (simp add: get_book_def log_transaction_def)

lemma get_book_store_member [simp]: "get_book (store_member L mid m) bid = get_book L bid"
  by (simp add: get_book_def store_member_def)

lemma get_member_store_member_same [simp]: "get_member (store_member L mid m) mid = Some m"
  by (simp add: get_member_def store_member_def dict_get_setitem_same)

lemma get_book_store_book_same [simp]: "get_book (store_book L bid b) bid = Some b"
  by (simp add: get_book_def store_book_def dict_get_setitem_same)

lemma remove1_snoc_fresh: "x \<notin> set xs \<Longrightarrow> remove1 x (xs @ [x]) = xs"
  by (induction xs) auto

lemma mset_remove1_snoc: "mset (remove1 x (xs @ [x])) = mset xs"
  by simp

text \<open>
  A successful borrow followed at once by the return of the same book: the return
  succeeds and the book's \<open>available_copies\<close> is what it was. The member's list holds
  the same book ids as before, each as often as before; it is the same list when the
  member did not hold the book before the borrow.
\<close>

lemma borrow_then_return:
  fixes S :: library and mid bid :: string and nb now n1 n2 now' :: datetime
  assumes ok: "fst (borrow_book S mid bid nb now) = Inr True"
    and m: "get_member S mid = Some m" and b: "get_book S bid = Some b"
  defines "S1 \<equiv> snd (borrow_book S mid bid nb now)"
  defines "S2 \<equiv> snd (return_book S1 mid bid n1 n2 now')"
  shows "fst (return_book S1 mid bid n1 n2 now') = Inr True"
    and "map_option available_copies (get_book S2 bid) = Some (available_copies b)"
    and "map_option (\<lambda>x. mset (borrowed_books x)) (get_member S2 mid) =
           Some (mset (borrowed_books m))"
    and "bid \<notin> set (borrowed_books m) \<Longrightarrow>
           map_option borrowed_books (get_member S2 mid) = Some (borrowed_books m)"
proof -
  define b1 where "b1 = b\<lparr>available_copies := available_copies b - 1,
                          borrowed_by := dict_setitem (borrowed_by b) mid nb\<rparr>"
  define m1 where "m1 = m\<lparr>borrowed_books := borrowed_books m @ [bid]\<rparr>"
  from ok m b have S1: "S1 = log_transaction (store_member (store_book S bid b1) mid m1)
                          ''BORROW'' (''Member '' @ name m @ '' borrowed '' @ title b) now"
    unfolding S1_def b1_def m1_def by (elim borrow_book_True) simp
  have gm: "get_member S1 mid = Some m1" and gb: "get_book S1 bid = Some b1"
    by (simp_all add: S1)
  have br: "Book_return_book b1 mid =
              (Inr True, b1\<lparr>available_copies := available_copies b1 + 1,
                            borrowed_by := filter (\<lambda>p. fst p \<noteq> mid) (borrowed_by b1)\<rparr>)"
    by (simp add: Book_return_book_def dict_delitem_def b1_def dict_contains_setitem_same)
  have mr: "Member_return_book m1 bid n1 n2 =
              (Inr True, m1\<lparr>borrowed_books := remove1 bid (borrowed_books m1),
                            borrowing_history := borrowing_history m1 @ [(bid, n1, n2)]\<rparr>)"
    by (simp add: Member_return_book_def list_remove_def m1_def)
  have r: "return_book S1 mid bid n1 n2 now' =
        (Inr True,
         log_transaction
           (store_member
              (store_book S1 bid
                 (b1\<lparr>available_copies := available_copies b1 + 1,
                     borrowed_by := filter (\<lambda>p. fst p \<noteq> mid) (borrowed_by b1)\<rparr>))
              mid (m1\<lparr>borrowed_books := remove1 bid (borrowed_books m1),
                      borrowing_history := borrowing_history m1 @ [(bid, n1, n2)]\<rparr>))
           ''RETURN'' (''Member '' @ name m1 @ '' returned '' @ title b1) now')"
    using gm gb br mr by (simp add: return_book_def m1_def)
  show "fst (return_book S1 mid bid n1 n2 now') = Inr True" by (simp add: r)
  show "map_option available_copies (get_book S2 bid) = Some (available_copies b)"
    by (simp add: S2_def r b1_def)
  show "map_option (\<lambda>x. mset (borrowed_books x)) (get_member S2 mid) =
           Some (mset (borrowed_books m))"
    by (simp add: S2_def r m1_def)
  show "map_option borrowed_books (get_member S2 mid) = Some (borrowed_books m)"
    if "bid \<notin> set (borrowed_books m)"
    using that by (simp add: S2_def r m1_def remove1_snoc_fresh)
qed

text \<open>
  C1. \<open>available_copies + |borrowed_by| = total_copies\<close> is stated for every book of
  every reachable state. It fails after a member borrows a book twice: \<open>Book.borrow\<close>
  takes a copy each time, and the second assignment to \<open>borrowed_by[member_id]\<close>
  overwrites the first entry. The book ends with 0 copies available, 1 borrower entry
  and 2 copies in total.
\<close>

theorem double_borrow_breaks_copy_count:
  "map (\<lambda>b. (available_copies b, length (borrowed_by b), total_copies b))
     (dict_values (books (exec_ops double_borrow_ops (Library_init ''Lib'')))) = [(0, 1, 2)]"
  by code_simp

text \<open>
  C2. A second \<open>borrow_book\<close> by a member who already holds the book is stated to
  return \<open>False\<close> and to leave no duplicate in \<open>borrowed_books\<close>. In the code it
  returns \<open>True\<close> while a copy is available and the member is under the limit, and the
  book id is then listed twice.
\<close>

theorem double_borrow_accepted:
  "fst (apply_op (BorrowBook ''M1'' ''B1'' 4 4)
          (exec_ops (take 3 double_borrow_ops) (Library_init ''Lib''))) = Inr True \<and>
   map borrowed_books
     (dict_values (members (exec_ops double_borrow_ops (Library_init ''Lib'')))) =
     [[''B1'', ''B1'']]"
  by code_simp

text \<open>
  After the double borrow only one return is possible: the first return deletes the
  member's only entry of \<open>borrowed_by\<close>, so \<open>Book.return_book\<close> refuses the second,
  and the member keeps a loan that can no longer be returned.
\<close>

lemma double_borrow_second_return_fails:
  "fst (apply_op (ReturnBook ''M1'' ''B1'' 6 6 6)
         (exec_ops (double_borrow_ops @ [ReturnBook ''M1'' ''B1'' 5 5 5]) (Library_init ''Lib'')))
     = Inr False"
  by code_simp

text \<open>
  C4. Borrow followed by return is stated to restore \<open>borrowed_books\<close>. When the member
  already holds the book the borrow still succeeds, and \<open>list.remove\<close> then drops the
  first occurrence, not the one just appended: the list \<open>[B1, B2]\<close> becomes
  \<open>[B2, B1]\<close>.
\<close>

theorem borrow_return_reorders:
  "map borrowed_books (dict_values (members (exec_ops reorder_ops (Library_init ''Lib'')))) =
     [[''B1'', ''B2'']] \<and>
   fst (apply_op (BorrowBook ''M1'' ''B1'' 6 6) (exec_ops reorder_ops (Library_init ''Lib''))) =
     Inr True \<and>
   fst (apply_op (ReturnBook ''M1'' ''B1'' 7 7 7)
          (exec_ops (reorder_ops @ [BorrowBook ''M1'' ''B1'' 6 6]) (Library_init ''Lib''))) =
     Inr True \<and>
   map borrowed_books
     (dict_values (members
        (exec_ops (reorder_ops @ [BorrowBook ''M1'' ''B1'' 6 6, ReturnBook ''M1'' ''B1'' 7 7 7])
           (Library_init ''Lib'')))) = [[''B2'', ''B1'']]"
  by code_simp

subsection \<open>The history tuple of a return\<close>

text \<open>
  C9, as the code has it. When the member holds the book, \<open>Member.return_book\<close>
  returns \<open>True\<close>, drops the first occurrence of the book id and appends exactly one
  tuple, whose two timestamps are the two clock readings taken during the return, in
  the order of the calls. Nothing else enters the tuple: the time of the borrow is kept
  by the book, which this method does not see.
\<close>

theorem Member_return_book_history:
  assumes "bid \<in> set (borrowed_books m)"
  shows "Member_return_book m bid now1 now2 =
           (Inr True,
            m\<lparr>borrowed_books := remove1 bid (borrowed_books m),
              borrowing_history := borrowing_history m @ [(bid, now1, now2)]\<rparr>)"
  using assms by (simp add: Member_return_book_def list_remove_def Let_def)

theorem Member_return_book_history_witness:
  "Member_return_book holding_member ''B1'' 7 9 =
     (Inr True, holding_member\<lparr>borrowed_books := [], borrowing_history := [(''B1'', 7, 9)]\<rparr>)"
  using Member_return_book_history[of "''B1''" holding_member 7 9]
  by (simp add: holding_member_def Member_init_def)

text \<open>
  C9 states the recorded borrow date and the recorded return date to be equal. The two
  come from two calls of \<open>datetime.now()\<close>: when the clock advances between them, the
  two dates of the tuple differ.
\<close>

theorem return_history_two_readings:
  "fst (Member_return_book holding_member ''B1'' 100 101) = Inr True \<and>
   borrowing_history (snd (Member_return_book holding_member ''B1'' 100 101)) =
     [(''B1'', 100, 101)] \<and>
   fst (snd (last (borrowing_history (snd (Member_return_book holding_member ''B1'' 100 101)))))
     \<noteq> snd (snd (last (borrowing_history
                             (snd (Member_return_book holding_member ''B1'' 100 101)))))"
  by code_simp

subsection \<open>Searching the catalog\<close>

lemma search_step_matches:
  "search_step (lower query) search_type results b =
     (if book_matches query search_type b then results @ [b] else results)"
  by (simp add: search_step_def book_matches_def)

lemma search_loop_filter:
  "search_loop bs (lower query) search_type results =
     results @ filter (book_matches query search_type) bs"
  by (induction bs arbitrary: results) (simp_all add: search_step_matches)

text \<open>
  \<open>search_books\<close> returns the matching books in the order of the catalog. For title,
  author and category both sides are lower-cased; for the ISBN only the query is.
\<close>

lemma search_books_filter:
  "search_books L query search_type =
     filter (book_matches query search_type) (dict_values (books L))"
  by (simp add: search_books_def search_loop_filter)

text \<open>The accented capitals are folded as well: code point 201 goes to 233.\<close>

lemma char_lower_accented:
  "char_lower (char_of (201 :: nat)) = char_of (233 :: nat) \<and>
   char_lower (char_of (215 :: nat)) = char_of (215 :: nat) \<and>
   char_lower (char_of (223 :: nat)) = char_of (223 :: nat)"
  by code_simp

text \<open>
  C7. An ISBN query is stated to match exactly when it is literally a substring of the
  stored ISBN. The code lower-cases the query before the loop and compares it with the
  stored ISBN as it is, so the query equal to the stored ISBN \<open>080442957X\<close> finds
  nothing.
\<close>

theorem isbn_exact_query_misses:
  "map isbn (dict_values (books isbn_library)) = [''080442957X''] \<and>
   search_books isbn_library ''080442957X'' ''isbn'' = []"
  by code_simp

lemma isbn_lower_query_hits:
  "map book_id (search_books isbn_library ''0804'' ''isbn'') = [''B1'']"
  by code_simp

text \<open>
  C10. With a \<open>search_type\<close> other than title, author, category and isbn, no branch of
  the chain matches, for any catalog and any query: the result is the empty list.
  Nothing can raise on the way, and there is no default field.
\<close>

theorem search_unknown_field_empty:
  assumes "search_type \<notin> {''title'', ''author'', ''category'', ''isbn''}"
  shows "search_books L query search_type = []"
proof -
  from assms have "book_matches query search_type b = False" for b
    by (simp add: book_matches_def)
  then show ?thesis by (simp add: search_books_filter)
qed

theorem search_unknown_field_empty_witness:
  "map book_id (search_books search_library ''emma'' ''title'') = [''B2''] \<and>
   search_books search_library ''emma'' ''name'' = [] \<and>
   search_books search_library ''emma'' '''' = []"
proof -
  have a: "''name'' \<notin> {''title'', ''author'', ''category'', ''isbn''}" by simp
  have b: "'''' \<notin> {''title'', ''author'', ''category'', ''isbn''}" by simp
  have c: "map book_id (search_books search_library ''emma'' ''title'') = [''B2'']"
    by code_simp
  from search_unknown_field_empty[OF a, of search_library "''emma''"]
       search_unknown_field_empty[OF b, of search_library "''emma''"] c
  show ?thesis by simp
qed

subsection \<open>Overdue books\<close>

lemma overdue_items_loop_eq:
  "overdue_items_loop L b its cutoff clk acc =
     acc @ map (overdue_entry_of L clk)
             (enumerate (length acc)
                (map (\<lambda>it. (b, fst it, snd it)) (filter (\<lambda>it. snd it < cutoff) its)))"
  by (induction its arbitrary: acc) (auto simp: overdue_entry_of_def split: prod.splits)

lemma overdue_books_loop_eq:
  "overdue_books_loop L bs cutoff clk acc =
     acc @ map (overdue_entry_of L clk)
             (enumerate (length acc)
                (concat (map (\<lambda>b. overdue_triples_of_book b cutoff) bs)))"
proof (induction bs arbitrary: acc)
  case Nil
  then show ?case by simp
next
  case (Cons b bs)
  show ?case
    by (simp add: Cons.IH overdue_items_loop_eq overdue_triples_of_book_def
                  enumerate_append_eq add.commute)
qed

lemma overdue_cutoff: "(bd < now - days * day_us) = (now - bd > days * day_us)"
  by auto

lemma distinct_triples_of_books:
  assumes "distinct (map book_id bs)"
    and "list_all (\<lambda>b. distinct (map fst (borrowed_by b))) bs"
  shows "distinct (concat (map (\<lambda>b. map (\<lambda>it. (b, fst it, snd it))
                                       (filter P (dict_items (borrowed_by b)))) bs))"
  using assms
proof (induction bs)
  case Nil
  then show ?case by simp
next
  case (Cons b bs)
  let ?f = "\<lambda>b. map (\<lambda>it. (b, fst it, snd it)) (filter P (dict_items (borrowed_by b)))"
  have d1: "distinct (?f b)"
  proof -
    from Cons.prems have "distinct (map fst (filter P (borrowed_by b)))"
      by (simp add: distinct_map_filter)
    then have "distinct (filter P (borrowed_by b))" by (simp add: distinct_map)
    then show ?thesis by (simp add: distinct_map dict_items_def inj_on_def)
  qed
  have ih: "distinct (concat (map ?f bs))" using Cons by simp
  have "fst t \<noteq> b" if "t \<in> set (concat (map ?f bs))" for t
  proof -
    from that have "fst t \<in> set bs" by auto
    with Cons.prems(1) show ?thesis by auto
  qed
  moreover have "fst t = b" if "t \<in> set (?f b)" for t using that by auto
  ultimately have disj: "set (?f b) \<inter> set (concat (map ?f bs)) = {}" by blast
  have "concat (map ?f (b # bs)) = ?f b @ concat (map ?f bs)" by simp
  with d1 ih disj show ?case by (simp only: distinct_append)
qed

lemma reachable_overdue_triples_distinct:
  "distinct (overdue_triples (exec_ops ops (Library_init nm)) days now)"
proof -
  let ?L = "exec_ops ops (Library_init nm)"
  have wb: "wf_books (books ?L)" using reachable_wf[of ops nm] by (simp add: wf_library_def)
  have "map book_id (dict_values (books ?L)) = map fst (books ?L)"
    using wb by (auto simp: wf_books_def list_all_iff dict_values_def)
  with wb have a: "distinct (map book_id (dict_values (books ?L)))"
    by (simp add: wf_books_def)
  from wb have b: "list_all (\<lambda>b. distinct (map fst (borrowed_by b))) (dict_values (books ?L))"
    by (auto simp: wf_books_def list_all_iff dict_values_def)
  from distinct_triples_of_books[OF a b] show ?thesis
    by (simp add: overdue_triples_def)
qed

lemma td_days_whole:
  assumes "n * day_us \<le> d" and "d < (n + 1) * day_us"
  shows "td_days d = n"
proof -
  have "d = day_us * n + (d - n * day_us)" by simp
  moreover have "0 \<le> d - n * day_us" using assms(1) by simp
  moreover have "d - n * day_us < day_us"
    using assms(2) by (simp add: algebra_simps)
  ultimately have "d div day_us = n" by (rule int_div_pos_eq)
  then show ?thesis by (simp add: td_days_def)
qed

text \<open>
  The difference of two datetimes always fits a timedelta, so
  \<open>(datetime.now() - borrow_date).days\<close> cannot raise.
\<close>

lemma datetime_diff_in_range:
  assumes "is_datetime a" and "is_datetime b"
  shows "\<bar>td_days (a - b)\<bar> \<le> 999999999"
proof -
  from assms have lo: "(- 3652059) * day_us \<le> a - b" and hi: "a - b < 3652059 * day_us"
    by (simp_all add: is_datetime_def datetime_max_def)
  have pos: "0 < day_us" by (simp add: day_us_def)
  have "((- 3652059) * day_us) div day_us = - 3652059"
    by (simp add: day_us_def)
  with zdiv_mono1[OF lo pos] have "- 3652059 \<le> (a - b) div day_us"
    by simp
  moreover have "(a - b) div day_us \<le> 3652058"
  proof -
    from hi have "a - b \<le> 3652059 * day_us - 1" by simp
    from zdiv_mono1[OF this pos] show ?thesis by (simp add: day_us_def)
  qed
  ultimately show ?thesis by (simp add: td_days_def)
qed

lemma get_overdue_books_cases:
  "get_overdue_books L days now clk =
     (if cutoff_representable days now
      then Inr (overdue_books_loop L (dict_values (books L)) (now - days * day_us) clk [])
      else Inl OverflowError)"
  by (simp add: get_overdue_books_def timedelta_days_def datetime_sub_timedelta_def
                cutoff_representable_def not_less)

text \<open>
  C6, as the code has it. When the cutoff \<open>now - timedelta(days=days)\<close> is representable,
  \<open>get_overdue_books\<close> returns, and it emits one entry for each (book, borrower, borrow
  date) triple with \<open>now - borrow_date > days\<close>, in iteration order and nothing else;
  the entry carries the book, the member found under the borrower's id, the borrow
  date, and as \<open>days_overdue\<close> the whole days between the borrow date and the clock
  reading taken for that entry. When the cutoff is not representable the call raises
  \<open>OverflowError\<close> and emits nothing. In a library reached by facade operations no
  triple occurs twice, so no loan is reported twice.
\<close>

theorem get_overdue_books_spec:
  "get_overdue_books L days now clk =
     (if cutoff_representable days now
      then Inr (map (overdue_entry_of L clk) (enumerate 0 (overdue_triples L days now)))
      else Inl OverflowError) \<and>
   distinct (overdue_triples (exec_ops ops (Library_init nm)) days now)"
proof
  show "get_overdue_books L days now clk =
     (if cutoff_representable days now
      then Inr (map (overdue_entry_of L clk) (enumerate 0 (overdue_triples L days now)))
      else Inl OverflowError)"
    by (simp add: get_overdue_books_cases overdue_books_loop_eq overdue_triples_def
                  overdue_triples_of_book_def overdue_cutoff)
  show "distinct (overdue_triples (exec_ops ops (Library_init nm)) days now)"
    by (rule reachable_overdue_triples_distinct)
qed

text \<open>
  With \<open>days = 14\<close> on 2024-01-21: the loan made 15 days before is emitted with
  \<open>days_overdue = 15\<close>; the loans made exactly 14 days and 10 days before are not.
\<close>

theorem get_overdue_books_example:
  "cutoff_representable 14 (day 738905) \<and>
   map_sum id (map entry_summary)
     (get_overdue_books overdue_library 14 (day 738905) (steady_clock (day 738905))) =
     Inr [(''B1'', Some ''M1'', day 738890, 15)]"
proof -
  have c: "cutoff_representable 14 (day 738905)"
    by code_simp
  have s: "map entry_summary
          (map (overdue_entry_of overdue_library (steady_clock (day 738905)))
             (enumerate 0 (overdue_triples overdue_library 14 (day 738905)))) =
        [(''B1'', Some ''M1'', day 738890, 15)]"
    by code_simp
  from get_overdue_books_spec
         [THEN conjunct1, of overdue_library 14 "day 738905" "steady_clock (day 738905)"] c s
  show ?thesis by simp
qed

text \<open>
  C6 states the entries for every \<open>days\<close>. On 2024-01-21 the call with \<open>days = 800000\<close>
  raises, since the cutoff would lie before the year 1, where it should emit nothing;
  and the call with \<open>days = -3000000\<close> raises, since the cutoff would lie after the year
  9999, although all three loans are older than that many days.
\<close>

theorem get_overdue_books_overflow:
  "get_overdue_books overdue_library 800000 (day 738905) (steady_clock (day 738905)) =
     Inl OverflowError \<and>
   overdue_triples overdue_library 800000 (day 738905) = [] \<and>
   get_overdue_books overdue_library (- 3000000) (day 738905) (steady_clock (day 738905)) =
     Inl OverflowError \<and>
   length (overdue_triples overdue_library (- 3000000) (day 738905)) = 3"
  by code_simp

section \<open>Properties of the attendance tracker\<close>

lemma active_count_active_in: "active_count T vid = active_in (attendance_records T) vid"
  by (simp add: active_count_def get_current_visitors_def active_in_def conj_commute)

lemma active_in_rev: "active_in (rev rs) vid = active_in rs vid"
  by (simp add: active_in_def flip: rev_filter)

lemma present_loop_active_in: "present_loop rs vid = (0 < active_in rs vid)"
  by (induction rs) (auto simp: active_in_def)

lemma is_currently_present_count: "is_currently_present T vid = (0 < active_count T vid)"
  by (simp add: is_currently_present_def present_loop_active_in active_in_rev
                active_count_active_in)

lemma check_out_loop_active_in:
  "active_in (snd (check_out_loop rs vid now)) v \<le> active_in rs v"
  by (induction rs)
     (auto simp: active_in_def AttendanceRecord_check_out_def split: prod.splits)

lemma check_out_records:
  "attendance_records (snd (check_out T vid now)) =
     rev (snd (check_out_loop (rev (attendance_records T)) vid now))"
  by (simp add: check_out_def split: prod.splits)

lemma check_out_active_count:
  "active_count (snd (check_out T vid now)) v \<le> active_count T v"
  using check_out_loop_active_in[of "rev (attendance_records T)" vid now v]
  by (simp add: active_count_active_in check_out_records active_in_rev)

lemma stats_increment_records:
  "stats_increment T d k = (r, T') \<Longrightarrow> attendance_records T' = attendance_records T"
  by (auto simp: stats_increment_def split: sum.splits)

lemma check_in_present:
  "is_currently_present T vid \<Longrightarrow> check_in T vid nm vt purp now today = (Inr False, T)"
  by (simp add: check_in_def)

lemma check_in_records:
  "\<not> is_currently_present T vid \<Longrightarrow>
   attendance_records (snd (check_in T vid nm vt purp now today)) =
     attendance_records T @ [(AttendanceRecord_init vid nm vt None now)\<lparr>purpose := purp\<rparr>]"
  by (auto simp: check_in_def Let_def split: prod.splits sum.splits
           dest!: stats_increment_records)

lemma check_in_active_count:
  "\<not> is_currently_present T vid \<Longrightarrow>
   active_count (snd (check_in T vid nm vt purp now today)) v =
     (if v = vid then 1 else active_count T v)"
  using is_currently_present_count[of T vid]
  by (auto simp: active_count_active_in check_in_records active_in_def
                 AttendanceRecord_init_def)

lemma apply_tracker_op_active_count:
  assumes "\<forall>v. active_count T v \<le> 1"
  shows "\<forall>v. active_count (snd (apply_tracker_op p T)) v \<le> 1"
proof (cases p)
  case (CheckIn vid nm vt purp now today)
  show ?thesis
  proof (cases "is_currently_present T vid")
    case True
    with CheckIn assms show ?thesis by (simp add: check_in_present)
  next
    case False
    with CheckIn assms show ?thesis by (simp add: check_in_active_count)
  qed
next
  case (CheckOut vid now)
  show ?thesis
  proof
    fix v
    from assms have "active_count T v \<le> 1" by simp
    with CheckOut check_out_active_count[of T vid now v]
    show "active_count (snd (apply_tracker_op p T)) v \<le> 1" by simp
  qed
qed

lemma exec_tracker_ops_active_count:
  "\<forall>v. active_count T v \<le> 1 \<Longrightarrow> \<forall>v. active_count (exec_tracker_ops ops T) v \<le> 1"
proof (induction ops arbitrary: T)
  case Nil
  then show ?case by simp
next
  case (Cons p ops)
  from Cons.IH[OF apply_tracker_op_active_count[OF Cons.prems]] show ?case by simp
qed

lemma reachable_active_count:
  "active_count (exec_tracker_ops ops AttendanceTracker_init) v \<le> 1"
proof -
  have "\<forall>v. active_count AttendanceTracker_init v \<le> 1"
    by (simp add: active_count_def get_current_visitors_def AttendanceTracker_init_def)
  from exec_tracker_ops_active_count[OF this] show ?thesis by simp
qed

lemma exec_tracker_ops_snoc:
  "exec_tracker_ops (ops @ [p]) T = snd (apply_tracker_op p (exec_tracker_ops ops T))"
  by (induction ops arbitrary: T) simp_all

lemma check_in_makes_present:
  "is_currently_present (snd (check_in T vid nm vt purp now today)) vid"
proof (cases "is_currently_present T vid")
  case True
  then show ?thesis by (simp add: check_in_present)
next
  case False
  then show ?thesis by (simp add: is_currently_present_count check_in_active_count)
qed

text \<open>
  C5. In every state the tracker reaches from its initial state by check-ins and
  check-outs, each visitor id has at most one active record. A check-in of a visitor
  who is present returns \<open>False\<close> and changes nothing, and the visitor then has exactly
  one active record among the current visitors; in particular this is so for a second
  check-in that follows a first one directly, whatever the first one's outcome.
\<close>

theorem single_active_record:
  assumes "T = exec_tracker_ops ops AttendanceTracker_init"
  shows "(\<forall>vid. active_count T vid \<le> 1) \<and>
         (\<forall>vid nm vt purp now today.
            is_currently_present T vid \<longrightarrow>
            check_in T vid nm vt purp now today = (Inr False, T) \<and> active_count T vid = 1) \<and>
         (\<forall>vid nm vt purp now today nm' vt' purp' now' today'.
            check_in (snd (check_in T vid nm vt purp now today)) vid nm' vt' purp' now' today' =
              (Inr False, snd (check_in T vid nm vt purp now today)) \<and>
            active_count (snd (check_in T vid nm vt purp now today)) vid = 1)"
proof -
  have one: "active_count T v \<le> 1" for v
    using assms reachable_active_count by simp
  have present: "check_in T vid nm vt purp now today = (Inr False, T) \<and> active_count T vid = 1"
    if "is_currently_present T vid" for vid nm vt purp now today
    using that one[of vid] by (simp add: check_in_present is_currently_present_count)
  have twice:
    "check_in (snd (check_in T vid nm vt purp now today)) vid nm' vt' purp' now' today' =
       (Inr False, snd (check_in T vid nm vt purp now today)) \<and>
     active_count (snd (check_in T vid nm vt purp now today)) vid = 1"
    for vid nm vt purp now today nm' vt' purp' now' today'
  proof -
    let ?T1 = "snd (check_in T vid nm vt purp now today)"
    have p: "is_currently_present ?T1 vid" by (rule check_in_makes_present)
    have "?T1 = exec_tracker_ops (ops @ [CheckIn vid nm vt purp now today]) AttendanceTracker_init"
      using assms by (simp add: exec_tracker_ops_snoc)
    then have "active_count ?T1 vid \<le> 1" using reachable_active_count by simp
    with p show ?thesis by (simp add: check_in_present is_currently_present_count)
  qed
  from one present twice show ?thesis by blast
qed

lemma one_visitor_present:
  "is_currently_present (exec_tracker_ops one_visitor_ops AttendanceTracker_init) ''V1''"
  by code_simp

theorem single_active_record_witness:
  "check_in (exec_tracker_ops one_visitor_ops AttendanceTracker_init)
      ''V1'' ''Vic'' VISITOR ''again'' 20 1 =
     (Inr False, exec_tracker_ops one_visitor_ops AttendanceTracker_init) \<and>
   active_count (exec_tracker_ops one_visitor_ops AttendanceTracker_init) ''V1'' = 1"
  using single_active_record[OF refl, of one_visitor_ops] one_visitor_present
  by blast

text \<open>
  The first check-in of a staff member does not return: the counter key is built as
  \<open>visitor_type.value + 's'\<close>, which is \<open>staffs\<close>, and the day's counters have the key
  \<open>staff\<close>. The record has been appended by then, so the visitor is present afterwards.
\<close>

lemma check_in_staff_raises:
  "fst (check_in AttendanceTracker_init ''S1'' ''Sam'' STAFF [] 10 1) = Inl KeyError \<and>
   map visitor_id (get_current_visitors
      (snd (check_in AttendanceTracker_init ''S1'' ''Sam'' STAFF [] 10 1))) = [''S1'']"
  by code_simp

end
